theory Spec2Isabelle
  imports Main "HOL-Library.Word"
begin

unbundle bit_operations_syntax

section \<open>Token record (token/token.h)\<close>

type_synonym uint256 = "256 word"
type_synonym CAmount = "64 word"
type_synonym CScript = "8 word list"

definition TOKEN_IDRANGE :: int where
  "TOKEN_IDRANGE = 16"

definition TOKEN_MINCONFS :: int where
  "TOKEN_MINCONFS = 1"

definition TOKENNAME_MINLEN :: nat where
  "TOKENNAME_MINLEN = 3"

definition TOKENNAME_MAXLEN :: nat where
  "TOKENNAME_MAXLEN = 12"

text \<open>
  The class \<open>CToken\<close>: \<open>uint8_t version; uint16_t type; uint64_t uid; std::string name;
  uint256 origintx\<close>. The field \<open>type\<close> is called \<open>ttype\<close> here.
\<close>

record CToken =
  version :: "8 word"
  ttype :: "16 word"
  uid :: "64 word"
  name :: string
  origintx :: uint256

definition CURRENT_VERSION :: "8 word" where
  "CURRENT_VERSION = 0x01"

definition NONE :: "16 word" where
  "NONE = 0"

definition ISSUANCE :: "16 word" where
  "ISSUANCE = 1"

definition TRANSFER :: "16 word" where
  "TRANSFER = 2"

text \<open>The default constructor \<open>CToken()\<close>.\<close>

definition CToken_new :: CToken where
  "CToken_new = \<lparr>version = CURRENT_VERSION, ttype = NONE, uid = 0, name = [], origintx = 0\<rparr>"

definition getId :: "CToken \<Rightarrow> 64 word" where
  "getId t = uid t"

definition getType :: "CToken \<Rightarrow> 16 word" where
  "getType t = ttype t"

definition getVersion :: "CToken \<Rightarrow> 8 word" where
  "getVersion t = version t"

definition getName :: "CToken \<Rightarrow> string" where
  "getName t = name t"

definition getOriginTx :: "CToken \<Rightarrow> uint256" where
  "getOriginTx t = origintx t"

definition isIssuance :: "CToken \<Rightarrow> bool" where
  "isIssuance t = (getType t = ISSUANCE)"

definition isTransfer :: "CToken \<Rightarrow> bool" where
  "isTransfer t = (getType t = TRANSFER)"

text \<open>\<open>bool operator==(CToken& other)\<close>.\<close>

definition token_eq :: "CToken \<Rightarrow> CToken \<Rightarrow> bool" where
  "token_eq a b = (getId a = getId b \<and> getName a = getName b)"


section \<open>Node behaviour scores (storage/behavior.cpp)\<close>

text \<open>
  The header \<open>storage/behavior.h\<close> is not among the sources, so the field types of
  \<open>NodeHistory\<close> and \<open>StorageNode\<close> follow their use in \<open>behavior.cpp\<close>: \<open>ipaddr\<close> is the
  \<open>uint32_t\<close> that \<open>HaveNode\<close> and \<open>ReturnNode\<close> take, \<open>health\<close> is a signed \<open>int\<close> (it is
  compared with \<open>0\<close> from below and printed with \<open>%d\<close>), read here in two's complement
  through \<open>sint\<close>. The constants \<open>SCORE_INCREASE\<close> and \<open>SCORE_DECREASE\<close> of that header are
  parameters of \<open>AddProof\<close>.
\<close>

record NodeHistory =
  ipaddr :: "32 word"
  space :: "32 word"
  health :: "32 word"

record StorageNode =
  ip :: "32 word"
  sn_space :: "32 word"
  mode :: "32 word"
  stat :: "32 word"
  reg :: "32 word"

record CProof =
  proof_nodes :: "StorageNode list"

record CNetworkProof =
  height :: int
  cproof :: CProof

record CNodeBehavior =
  nodes :: "NodeHistory list"
  seen :: "int list"

fun HaveSeen_loop :: "int list \<Rightarrow> int \<Rightarrow> bool" where
  "HaveSeen_loop [] h = False"
| "HaveSeen_loop (l # ls) h = (if l = h then True else HaveSeen_loop ls h)"

definition HaveSeen :: "CNodeBehavior \<Rightarrow> int \<Rightarrow> bool" where
  "HaveSeen s h = HaveSeen_loop (seen s) h"

definition SetSeen :: "CNodeBehavior \<Rightarrow> int \<Rightarrow> CNodeBehavior" where
  "SetSeen s h = (if HaveSeen_loop (seen s) h then s else s\<lparr>seen := seen s @ [h]\<rparr>)"

fun HaveNode :: "NodeHistory list \<Rightarrow> 32 word \<Rightarrow> bool" where
  "HaveNode [] a = False"
| "HaveNode (l # ls) a = (if ipaddr l = a then True else HaveNode ls a)"

text \<open>
  \<open>ReturnNode\<close> returns the first stored node with the address; past the loop it returns
  a struct it never initialised, the parameter \<open>blank\<close>.
\<close>

fun ReturnNode :: "NodeHistory \<Rightarrow> NodeHistory list \<Rightarrow> 32 word \<Rightarrow> NodeHistory" where
  "ReturnNode blank [] a = blank"
| "ReturnNode blank (l # ls) a = (if ipaddr l = a then l else ReturnNode blank ls a)"

text \<open>
  \<open>ReplaceNode\<close>: the loop condition is the assignment \<open>l.ipaddr = in.ipaddr\<close>, so every
  node the loop visits first receives the address of \<open>in\<close>, and the condition holds
  when that address is not zero. The result is the returned flag and the new list.
\<close>

fun ReplaceNode :: "NodeHistory list \<Rightarrow> NodeHistory \<Rightarrow> bool \<times> NodeHistory list" where
  "ReplaceNode [] inn = (False, [])"
| "ReplaceNode (l # ls) inn =
     (let l' = l\<lparr>ipaddr := ipaddr inn\<rparr> in
      if ipaddr l' \<noteq> 0 then (True, inn # ls)
      else (case ReplaceNode ls inn of (r, ls') \<Rightarrow> (r, l' # ls')))"

definition AddNode :: "NodeHistory list \<Rightarrow> NodeHistory \<Rightarrow> NodeHistory list" where
  "AddNode ns inn = ns @ [inn]"

text \<open>
  One round of the first loop of \<open>AddProof\<close>, over the proof's node \<open>inn\<close>. The state is
  the stored list, the local \<open>in2\<close> (which lives across rounds) and \<open>seen_nodes\<close>.
\<close>

definition AddProof_node ::
  "32 word \<Rightarrow> NodeHistory \<Rightarrow> StorageNode \<Rightarrow>
   NodeHistory list \<times> NodeHistory \<times> 32 word list \<Rightarrow>
   NodeHistory list \<times> NodeHistory \<times> 32 word list" where
  "AddProof_node SCORE_INCREASE blank inn st =
     (case st of (ns, in2, seen_nodes) \<Rightarrow>
       (let (ns1, in2a) =
              (if \<not> HaveNode ns (ip inn)
               then (let c = in2\<lparr>ipaddr := ip inn, space := sn_space inn, health := 100\<rparr>
                     in (AddNode ns c, c))
               else (ns, in2))
        in if HaveNode ns1 (ip inn)
           then (let in2b = ReturnNode blank ns1 (ip inn);
                     seen_nodes' = seen_nodes @ [ip inn];
                     in2c = (if 0 <s mode inn \<and> 0 <s stat inn \<and> 0 <s reg inn
                             then in2b\<lparr>health := health in2b + SCORE_INCREASE\<rparr> else in2b);
                     in2d = (if 100 <s health in2c then in2c\<lparr>health := 100\<rparr> else in2c)
                 in (snd (ReplaceNode ns1 in2d), in2d, seen_nodes'))
           else (ns1, in2a, seen_nodes)))"

fun AddProof_nodes ::
  "32 word \<Rightarrow> NodeHistory \<Rightarrow> StorageNode list \<Rightarrow>
   NodeHistory list \<times> NodeHistory \<times> 32 word list \<Rightarrow>
   NodeHistory list \<times> NodeHistory \<times> 32 word list" where
  "AddProof_nodes inc blank [] st = st"
| "AddProof_nodes inc blank (inn # ins) st =
     AddProof_nodes inc blank ins (AddProof_node inc blank inn st)"

text \<open>One round of the second loop: a node no proof entry named loses health.\<close>

definition AddProof_decay :: "32 word \<Rightarrow> 32 word list \<Rightarrow> NodeHistory \<Rightarrow> NodeHistory" where
  "AddProof_decay SCORE_DECREASE seen_nodes l =
     (if ipaddr l \<in> set seen_nodes then l
      else (let l1 = l\<lparr>health := health l - SCORE_DECREASE\<rparr>
            in if health l1 <s 0 then l1\<lparr>health := 0\<rparr> else l1))"

definition AddProof ::
  "32 word \<Rightarrow> 32 word \<Rightarrow> NodeHistory \<Rightarrow> CNodeBehavior \<Rightarrow> CNetworkProof \<Rightarrow> CNodeBehavior" where
  "AddProof SCORE_INCREASE SCORE_DECREASE blank s netproof =
     (if HaveSeen s (height netproof) then s
      else (case AddProof_nodes SCORE_INCREASE blank (proof_nodes (cproof netproof))
                   (nodes s, blank, []) of
              (ns, in2, seen_nodes) \<Rightarrow>
                s\<lparr>nodes := map (AddProof_decay SCORE_DECREASE seen_nodes) ns\<rparr>))"

text \<open>The bound the scores are meant to keep.\<close>

definition health_ok :: "NodeHistory \<Rightarrow> bool" where
  "health_ok l = (0 \<le>s health l \<and> health l \<le>s 100)"

text \<open>Concrete nodes for the worked examples.\<close>

definition node_a :: NodeHistory where
  "node_a = \<lparr>ipaddr = 1, space = 10, health = 50\<rparr>"

definition node_b :: NodeHistory where
  "node_b = \<lparr>ipaddr = 2, space = 20, health = 60\<rparr>"

definition node_b' :: NodeHistory where
  "node_b' = \<lparr>ipaddr = 2, space = 20, health = 70\<rparr>"

definition node_z :: NodeHistory where
  "node_z = \<lparr>ipaddr = 0, space = 0, health = 0\<rparr>"

definition state_ab :: CNodeBehavior where
  "state_ab = \<lparr>nodes = [node_a, node_b], seen = []\<rparr>"

definition proof_b :: CNetworkProof where
  "proof_b = \<lparr>height = 7,
     cproof = \<lparr>proof_nodes = [\<lparr>ip = 2, sn_space = 20, mode = 1, stat = 1, reg = 1\<rparr>]\<rparr>\<rparr>"


section \<open>Wallet operations (token/wallet.cpp)\<close>

subsection \<open>Transactions\<close>

text \<open>
  The transaction types come from the ledger the token layer is built on. An outpoint is
  the hash of a transaction and an index into its outputs; the index is a \<open>nat\<close>, the
  position in \<open>vout\<close>. \<open>tx_hash\<close> is what \<open>GetHash()\<close> returns. An amount is a \<open>CAmount\<close>, that
  is an \<open>int64_t\<close>: sums are taken in 64 bits and compared as signed values (\<open>\<le>s\<close>).
\<close>

record CTxOut =
  nValue :: CAmount
  scriptPubKey :: CScript

record COutPoint =
  op_hash :: uint256
  op_n :: nat

record CTxIn =
  prevout :: COutPoint
  scriptSig :: CScript

record CTransaction =
  tx_hash :: uint256
  vin :: "CTxIn list"
  vout :: "CTxOut list"

text \<open>The constructor \<open>CTxIn(COutPoint(txHash, n))\<close>: an empty \<open>scriptSig\<close>.\<close>

definition CTxIn_new :: "uint256 \<Rightarrow> nat \<Rightarrow> CTxIn" where
  "CTxIn_new h i = \<lparr>prevout = \<lparr>op_hash = h, op_n = i\<rparr>, scriptSig = []\<rparr>"

subsection \<open>Collaborators\<close>

text \<open>
  The script predicates and the token decoders are declared in headers whose
  implementation is not among the sources; the wallet functions only call them, so they
  are parameters. \<open>BuildTokenFromScript\<close> returns the token it built, or \<open>None\<close> where
  the C++ returns \<open>false\<close>. \<open>ContextualCheckToken\<close> takes the script and the error string
  it may overwrite, and returns its flag, the token it wrote and the error string it left.
\<close>

record TokenOps =
  IsPayToToken :: "CScript \<Rightarrow> bool"
  IsChecksumData :: "CScript \<Rightarrow> bool"
  IsTokenOutput :: "CTxOut \<Rightarrow> bool"
  HasTokenOutput :: "CTransaction \<Rightarrow> bool"
  BuildTokenFromScript :: "CScript \<Rightarrow> CToken option"
  ContextualCheckToken :: "CScript \<Rightarrow> string \<Rightarrow> bool \<times> CToken \<times> string"

text \<open>
  The wallet: the transactions \<open>GetSpendableTXs()\<close> and \<open>mapWallet\<close> enumerate, in the
  order the loops visit them, and the wallet's queries.
\<close>

record CWallet =
  SpendableTXs :: "CTransaction list"
  mapWallet :: "(uint256 \<times> CTransaction) list"
  IsInMempool :: "uint256 \<Rightarrow> bool"
  IsOutputUnspent :: "COutPoint \<Rightarrow> bool"
  IsMine :: "CTxOut \<Rightarrow> bool"
  GetUTXOConfirmations :: "COutPoint \<Rightarrow> int"
  IsOutputInMempool :: "COutPoint \<Rightarrow> bool"

subsection \<open>FundMintTransaction\<close>

text \<open>
  The five \<open>continue\<close> tests at the head of the inner loop, in the order of the code.
\<close>

definition FundMint_skip :: "CWallet \<Rightarrow> uint256 \<Rightarrow> nat \<Rightarrow> CTxOut \<Rightarrow> bool" where
  "FundMint_skip w txHash i out =
     (let wtx_out = \<lparr>op_hash = txHash, op_n = i\<rparr> in
      if IsInMempool w txHash then True
      else if \<not> IsOutputUnspent w wtx_out then True
      else if \<not> IsMine w out then True
      else if GetUTXOConfirmations w wtx_out < TOKEN_MINCONFS + 1 then True
      else if IsOutputInMempool w wtx_out then True
      else False)"

text \<open>
  The inner loop over \<open>tx->vout\<close> from index \<open>i\<close> on. The state is \<open>amountFound\<close> and
  \<open>ret\<close>; the flag says that the function has returned \<open>true\<close>.
\<close>

fun FundMint_vout ::
  "TokenOps \<Rightarrow> CWallet \<Rightarrow> CAmount \<Rightarrow> uint256 \<Rightarrow> nat \<Rightarrow> CTxOut list \<Rightarrow>
   CAmount \<times> CTxIn list \<Rightarrow> bool \<times> CAmount \<times> CTxIn list" where
  "FundMint_vout sc w amountMin txHash i [] st = (False, st)"
| "FundMint_vout sc w amountMin txHash i (out # outs) (amountFound, ret) =
     (if FundMint_skip w txHash i out
      then FundMint_vout sc w amountMin txHash (Suc i) outs (amountFound, ret)
      else (let pk = scriptPubKey out; inputValue = nValue out in
        if \<not> IsPayToToken sc pk \<and> \<not> IsChecksumData sc pk
        then (let amountFound' = amountFound + inputValue;
                  ret' = ret @ [CTxIn_new txHash i]
              in if amountMin \<le>s amountFound' then (True, amountFound', ret')
                 else FundMint_vout sc w amountMin txHash (Suc i) outs (amountFound', ret'))
        else FundMint_vout sc w amountMin txHash (Suc i) outs (amountFound, ret)))"

fun FundMint_txs ::
  "TokenOps \<Rightarrow> CWallet \<Rightarrow> CAmount \<Rightarrow> CTransaction list \<Rightarrow>
   CAmount \<times> CTxIn list \<Rightarrow> bool \<times> CAmount \<times> CTxIn list" where
  "FundMint_txs sc w amountMin [] st = (False, st)"
| "FundMint_txs sc w amountMin (tx # txs) st =
     (case FundMint_vout sc w amountMin (tx_hash tx) 0 (vout tx) st of
        (True, st') \<Rightarrow> (True, st')
      | (False, st') \<Rightarrow> FundMint_txs sc w amountMin txs st')"

text \<open>
  \<open>FundMintTransaction(amountMin, amountFound, ret)\<close>: \<open>amountFound\<close> is reset, \<open>ret\<close> is
  the caller's vector and is appended to. The result is the returned flag, \<open>amountFound\<close>
  and \<open>ret\<close>.
\<close>

definition FundMintTransaction ::
  "TokenOps \<Rightarrow> CWallet \<Rightarrow> CAmount \<Rightarrow> CTxIn list \<Rightarrow> bool \<times> CAmount \<times> CTxIn list" where
  "FundMintTransaction sc w amountMin ret =
     FundMint_txs sc w amountMin (SpendableTXs w) (0, ret)"

subsection \<open>FundTokenTransaction\<close>

definition FundToken_skip :: "TokenOps \<Rightarrow> CWallet \<Rightarrow> uint256 \<Rightarrow> nat \<Rightarrow> CTxOut \<Rightarrow> bool" where
  "FundToken_skip sc w txHash i out =
     (let wtx_out = \<lparr>op_hash = txHash, op_n = i\<rparr> in
      if \<not> IsTokenOutput sc out then True
      else if IsInMempool w txHash then True
      else if \<not> IsOutputUnspent w wtx_out then True
      else if \<not> IsMine w out then True
      else if GetUTXOConfirmations w wtx_out < TOKEN_MINCONFS + 1 then True
      else if IsOutputInMempool w wtx_out then True
      else False)"

fun FundToken_vout ::
  "TokenOps \<Rightarrow> CWallet \<Rightarrow> string \<Rightarrow> CAmount \<Rightarrow> uint256 \<Rightarrow> nat \<Rightarrow> CTxOut list \<Rightarrow>
   CAmount \<times> CTxIn list \<Rightarrow> bool \<times> CAmount \<times> CTxIn list" where
  "FundToken_vout sc w tokenname amountMin txHash i [] st = (False, st)"
| "FundToken_vout sc w tokenname amountMin txHash i (out # outs) (amountFound, ret) =
     (if FundToken_skip sc w txHash i out
      then FundToken_vout sc w tokenname amountMin txHash (Suc i) outs (amountFound, ret)
      else (let pk = scriptPubKey out; inputValue = nValue out in
        if \<not> IsChecksumData sc pk
        then (case BuildTokenFromScript sc pk of
                None \<Rightarrow> FundToken_vout sc w tokenname amountMin txHash (Suc i) outs (amountFound, ret)
              | Some token \<Rightarrow>
                  if tokenname = getName token
                  then (let amountFound' = amountFound + inputValue;
                            ret' = ret @ [CTxIn_new txHash i]
                        in if amountMin \<le>s amountFound' then (True, amountFound', ret')
                           else FundToken_vout sc w tokenname amountMin txHash (Suc i) outs
                                  (amountFound', ret'))
                  else FundToken_vout sc w tokenname amountMin txHash (Suc i) outs
                         (amountFound, ret))
        else FundToken_vout sc w tokenname amountMin txHash (Suc i) outs (amountFound, ret)))"

fun FundToken_txs ::
  "TokenOps \<Rightarrow> CWallet \<Rightarrow> string \<Rightarrow> CAmount \<Rightarrow> (uint256 \<times> CTransaction) list \<Rightarrow>
   CAmount \<times> CTxIn list \<Rightarrow> bool \<times> CAmount \<times> CTxIn list" where
  "FundToken_txs sc w tokenname amountMin [] st = (False, st)"
| "FundToken_txs sc w tokenname amountMin (kv # kvs) st =
     (let tx = snd kv in
      case FundToken_vout sc w tokenname amountMin (tx_hash tx) 0 (vout tx) st of
        (True, st') \<Rightarrow> (True, st')
      | (False, st') \<Rightarrow> FundToken_txs sc w tokenname amountMin kvs st')"

definition FundTokenTransaction ::
  "TokenOps \<Rightarrow> CWallet \<Rightarrow> string \<Rightarrow> CAmount \<Rightarrow> CTxIn list \<Rightarrow>
   bool \<times> CAmount \<times> CTxIn list" where
  "FundTokenTransaction sc w tokenname amountMin ret =
     FundToken_txs sc w tokenname amountMin (mapWallet w) (0, ret)"


subsection \<open>The outputs a funding scan can select\<close>

text \<open>
  The outputs that pass every test of the inner loop, with the input and the value each
  contributes, in the order the loops visit them; \<open>first_fit\<close> is the accumulation the
  two funding functions perform over them.
\<close>

definition FundMint_eligible :: "TokenOps \<Rightarrow> CWallet \<Rightarrow> uint256 \<Rightarrow> nat \<Rightarrow> CTxOut \<Rightarrow> bool" where
  "FundMint_eligible sc w h i out =
     (\<not> FundMint_skip w h i out \<and> \<not> IsPayToToken sc (scriptPubKey out)
      \<and> \<not> IsChecksumData sc (scriptPubKey out))"

definition candidates_from ::
  "(nat \<Rightarrow> CTxOut \<Rightarrow> bool) \<Rightarrow> uint256 \<Rightarrow> nat \<Rightarrow> CTxOut list \<Rightarrow> (CTxIn \<times> CAmount) list" where
  "candidates_from el h i outs =
     map (\<lambda>(j, out). (CTxIn_new h j, nValue out))
       (filter (\<lambda>(j, out). el j out) (enumerate i outs))"

definition mint_candidates :: "TokenOps \<Rightarrow> CWallet \<Rightarrow> (CTxIn \<times> CAmount) list" where
  "mint_candidates sc w =
     concat (map (\<lambda>tx. candidates_from (FundMint_eligible sc w (tx_hash tx)) (tx_hash tx) 0 (vout tx))
       (SpendableTXs w))"

definition FundToken_eligible ::
  "TokenOps \<Rightarrow> CWallet \<Rightarrow> string \<Rightarrow> uint256 \<Rightarrow> nat \<Rightarrow> CTxOut \<Rightarrow> bool" where
  "FundToken_eligible sc w tokenname h i out =
     (\<not> FundToken_skip sc w h i out \<and> \<not> IsChecksumData sc (scriptPubKey out)
      \<and> (case BuildTokenFromScript sc (scriptPubKey out) of
            None \<Rightarrow> False | Some token \<Rightarrow> tokenname = getName token))"

definition token_candidates :: "TokenOps \<Rightarrow> CWallet \<Rightarrow> string \<Rightarrow> (CTxIn \<times> CAmount) list" where
  "token_candidates sc w tokenname =
     concat (map (\<lambda>kv. candidates_from (FundToken_eligible sc w tokenname (tx_hash (snd kv)))
                        (tx_hash (snd kv)) 0 (vout (snd kv)))
       (mapWallet w))"

definition running_total :: "(CTxIn \<times> CAmount) list \<Rightarrow> nat \<Rightarrow> CAmount" where
  "running_total cs k = sum_list (map snd (take k cs))"

fun first_fit ::
  "CAmount \<Rightarrow> (CTxIn \<times> CAmount) list \<Rightarrow> CAmount \<times> CTxIn list \<Rightarrow> bool \<times> CAmount \<times> CTxIn list" where
  "first_fit amountMin [] st = (False, st)"
| "first_fit amountMin (c # cs) (amountFound, ret) =
     (let amountFound' = amountFound + snd c; ret' = ret @ [fst c]
      in if amountMin \<le>s amountFound' then (True, amountFound', ret')
         else first_fit amountMin cs (amountFound', ret'))"

text \<open>The tests of the filter chain other than the one on confirmations.\<close>

definition mint_other_filters :: "TokenOps \<Rightarrow> CWallet \<Rightarrow> uint256 \<Rightarrow> nat \<Rightarrow> CTxOut \<Rightarrow> bool" where
  "mint_other_filters sc w h i out =
     (\<not> IsInMempool w h \<and> IsOutputUnspent w \<lparr>op_hash = h, op_n = i\<rparr> \<and> IsMine w out
      \<and> \<not> IsOutputInMempool w \<lparr>op_hash = h, op_n = i\<rparr>
      \<and> \<not> IsPayToToken sc (scriptPubKey out) \<and> \<not> IsChecksumData sc (scriptPubKey out))"

definition token_other_filters ::
  "TokenOps \<Rightarrow> CWallet \<Rightarrow> string \<Rightarrow> uint256 \<Rightarrow> nat \<Rightarrow> CTxOut \<Rightarrow> bool" where
  "token_other_filters sc w tokenname h i out =
     (IsTokenOutput sc out \<and> \<not> IsInMempool w h
      \<and> IsOutputUnspent w \<lparr>op_hash = h, op_n = i\<rparr> \<and> IsMine w out
      \<and> \<not> IsOutputInMempool w \<lparr>op_hash = h, op_n = i\<rparr>
      \<and> \<not> IsChecksumData sc (scriptPubKey out)
      \<and> (case BuildTokenFromScript sc (scriptPubKey out) of
            None \<Rightarrow> False | Some token \<Rightarrow> tokenname = getName token))"

subsection \<open>A worked wallet\<close>

text \<open>
  Four wallet transactions. The outputs of transaction 3 have exactly \<open>TOKEN_MINCONFS\<close>
  confirmations, all others one more. The decoder knows three token scripts; \<open>script_bad\<close>
  carries the token tag and does not decode.
\<close>

definition script_plain :: CScript where
  "script_plain = [0x76, 0xA9]"

definition script_gold_issue :: CScript where
  "script_gold_issue = [0xC1, 0x01, 0x47]"

definition script_gold_xfer :: CScript where
  "script_gold_xfer = [0xC1, 0x02, 0x47]"

definition script_silv :: CScript where
  "script_silv = [0xC1, 0x02, 0x53]"

definition script_bad :: CScript where
  "script_bad = [0xC1, 0xFF]"

definition tok_gold_issue :: CToken where
  "tok_gold_issue = \<lparr>version = 1, ttype = ISSUANCE, uid = 42, name = ''GOLD'', origintx = 0\<rparr>"

definition tok_gold_xfer :: CToken where
  "tok_gold_xfer = \<lparr>version = 1, ttype = TRANSFER, uid = 42, name = ''GOLD'', origintx = 0\<rparr>"

definition tok_silv :: CToken where
  "tok_silv = \<lparr>version = 1, ttype = TRANSFER, uid = 43, name = ''SILV'', origintx = 0\<rparr>"

definition decode0 :: "CScript \<Rightarrow> CToken option" where
  "decode0 s = (if s = script_gold_issue then Some tok_gold_issue
                else if s = script_gold_xfer then Some tok_gold_xfer
                else if s = script_silv then Some tok_silv else None)"

definition ops0 :: TokenOps where
  "ops0 = \<lparr>IsPayToToken = (\<lambda>s. take 1 s = [0xC1]),
            IsChecksumData = (\<lambda>s. take 1 s = [0xC2]),
            IsTokenOutput = (\<lambda>out. take 1 (scriptPubKey out) = [0xC1]),
            HasTokenOutput = (\<lambda>tx. list_ex (\<lambda>out. take 1 (scriptPubKey out) = [0xC1]) (vout tx)),
            BuildTokenFromScript = decode0,
            ContextualCheckToken = (\<lambda>s e. case decode0 s of
                Some token \<Rightarrow> (True, token, e)
              | None \<Rightarrow> (False, CToken_new, ''bad-token-script''))\<rparr>"

definition tx1 :: CTransaction where
  "tx1 = \<lparr>tx_hash = 1, vin = [],
           vout = [\<lparr>nValue = 60, scriptPubKey = script_plain\<rparr>,
                   \<lparr>nValue = 100, scriptPubKey = script_gold_xfer\<rparr>]\<rparr>"

definition tx2 :: CTransaction where
  "tx2 = \<lparr>tx_hash = 2, vin = [],
           vout = [\<lparr>nValue = 50, scriptPubKey = script_plain\<rparr>,
                   \<lparr>nValue = 5, scriptPubKey = script_silv\<rparr>,
                   \<lparr>nValue = 7, scriptPubKey = script_bad\<rparr>]\<rparr>"

definition tx3 :: CTransaction where
  "tx3 = \<lparr>tx_hash = 3, vin = [],
           vout = [\<lparr>nValue = 1000, scriptPubKey = script_plain\<rparr>,
                   \<lparr>nValue = 900, scriptPubKey = script_gold_xfer\<rparr>]\<rparr>"

definition tx4 :: CTransaction where
  "tx4 = \<lparr>tx_hash = 4, vin = [],
           vout = [\<lparr>nValue = 30, scriptPubKey = script_gold_xfer\<rparr>]\<rparr>"

definition wallet0 :: CWallet where
  "wallet0 = \<lparr>SpendableTXs = [tx1, tx3, tx2, tx4],
               mapWallet = [(1, tx1), (2, tx2), (3, tx3), (4, tx4)],
               IsInMempool = (\<lambda>h. False),
               IsOutputUnspent = (\<lambda>p. True),
               IsMine = (\<lambda>out. True),
               GetUTXOConfirmations = (\<lambda>p. if op_hash p = 3 then 1 else 2),
               IsOutputInMempool = (\<lambda>p. False)\<rparr>"


subsection \<open>GetUnconfirmedTokenBalance\<close>

text \<open>
  The mempool is the list of its transactions in the order \<open>pool.mapTx\<close> enumerates them.
  \<open>balances\<close> is the caller's \<open>std::map\<close>, passed by reference: \<open>balances[name] += value\<close>
  creates a missing entry at 0 first. The result is the returned flag, the map and
  \<open>strError\<close> as the call leaves them.
\<close>

type_synonym Balances = "string \<rightharpoonup> CAmount"

definition add_balance :: "Balances \<Rightarrow> string \<Rightarrow> CAmount \<Rightarrow> Balances" where
  "add_balance balances nm v =
     balances(nm \<mapsto> (case balances nm of None \<Rightarrow> 0 | Some b \<Rightarrow> b) + v)"

fun Balance_vout ::
  "TokenOps \<Rightarrow> CWallet \<Rightarrow> CTxOut list \<Rightarrow> Balances \<times> string \<Rightarrow> bool \<times> Balances \<times> string" where
  "Balance_vout sc w [] st = (True, st)"
| "Balance_vout sc w (out # outs) (balances, strError) =
     (let TokenScript = scriptPubKey out in
      if IsPayToToken sc TokenScript \<and> IsMine w out
      then (case ContextualCheckToken sc TokenScript strError of
              (ok, token, strError') \<Rightarrow>
                if \<not> ok then (False, balances, ''corrupt-invalid-existing-mempool'')
                else Balance_vout sc w outs
                       (add_balance balances (getName token) (nValue out), strError'))
      else Balance_vout sc w outs (balances, strError))"

fun Balance_txs ::
  "TokenOps \<Rightarrow> CWallet \<Rightarrow> CTransaction list \<Rightarrow> Balances \<times> string \<Rightarrow>
   bool \<times> Balances \<times> string" where
  "Balance_txs sc w [] st = (True, st)"
| "Balance_txs sc w (mtx # pool) st =
     (if HasTokenOutput sc mtx
      then (case Balance_vout sc w (vout mtx) st of
              (True, st') \<Rightarrow> Balance_txs sc w pool st'
            | (False, st') \<Rightarrow> (False, st'))
      else Balance_txs sc w pool st)"

definition GetUnconfirmedTokenBalance ::
  "TokenOps \<Rightarrow> CWallet \<Rightarrow> CTransaction list \<Rightarrow> Balances \<Rightarrow> string \<Rightarrow>
   bool \<times> Balances \<times> string" where
  "GetUnconfirmedTokenBalance sc w pool balances strError =
     Balance_txs sc w pool (balances, strError)"



definition credited :: "Balances \<Rightarrow> (string \<times> CAmount) list \<Rightarrow> Balances" where
  "credited balances cs nm =
     (if nm \<in> fst ` set cs
      then Some ((case balances nm of None \<Rightarrow> 0 | Some b \<Rightarrow> b)
                 + sum_list (map snd (filter (\<lambda>c. fst c = nm) cs)))
      else balances nm)"

text \<open>
  A mempool for the worked examples: an issuance of GOLD with value 100, and a transfer
  that spends it. \<open>wallet1\<close> does not own the issuance output.
\<close>

definition balances0 :: Balances where
  "balances0 = Map.empty"

definition tx_issue :: CTransaction where
  "tx_issue = \<lparr>tx_hash = 5, vin = [],
     vout = [\<lparr>nValue = 100, scriptPubKey = script_gold_issue\<rparr>]\<rparr>"

definition tx_xfer :: CTransaction where
  "tx_xfer = \<lparr>tx_hash = 6, vin = [CTxIn_new 5 0],
     vout = [\<lparr>nValue = 100, scriptPubKey = script_gold_xfer\<rparr>]\<rparr>"

definition wallet1 :: CWallet where
  "wallet1 = wallet0\<lparr>IsMine := (\<lambda>out. scriptPubKey out \<noteq> script_gold_issue)\<rparr>"

subsection \<open>SignTokenTransaction\<close>

text \<open>
  Modelled from the spec: the coin view of the ledger (\<open>coins.h\<close> is not among the
  sources), as section 6 gives it, \<open>accessCoin(outpoint) -> Coin{spent, value, script}\<close>. A
  coin carries its output and whether it is spent; a view maps an outpoint to a coin, and \<open>AccessCoin\<close>
  answers an outpoint the view does not have with the empty coin, which is spent. The
  cache \<open>view\<close> is filled from the chain-plus-mempool backend for the previous outputs of
  the inputs and then cut off from it (\<open>FetchCoins\<close>).
\<close>

record CMutableTransaction =
  mtx_vin :: "CTxIn list"
  mtx_vout :: "CTxOut list"











definition UpdateInput :: "CMutableTransaction \<Rightarrow> nat \<Rightarrow> CScript \<Rightarrow> CMutableTransaction" where
  "UpdateInput rawTx i sig = rawTx\<lparr>mtx_vin := (mtx_vin rawTx)[i := (mtx_vin rawTx ! i)\<lparr>scriptSig := sig\<rparr>]\<rparr>"










section \<open>Token script codec (declared in token/token.h)\<close>

text \<open>
  \<open>token.h\<close> declares \<open>BuildTokenScript\<close> and \<open>DecodeTokenScript\<close>; the file that
  implements them is not among the sources. A script is its bytes; the fixed-width fields
  are written least significant byte first.
\<close>

type_synonym CPubKey = "8 word list"

fun le_bytes :: "nat \<Rightarrow> 'a::len word \<Rightarrow> 8 word list" where
  "le_bytes 0 w = []"
| "le_bytes (Suc k) w = ucast w # le_bytes k (drop_bit 8 w)"

fun le_word :: "8 word list \<Rightarrow> 'a::len word" where
  "le_word [] = 0"
| "le_word (b # bs) = ucast b OR push_bit 8 (le_word bs)"

definition byte_of_char :: "char \<Rightarrow> 8 word" where
  "byte_of_char c = of_nat (of_char c)"

definition char_of_byte :: "8 word \<Rightarrow> char" where
  "char_of_byte b = char_of (unat b)"

text \<open>
  Modelled from the spec: the three outcomes of \<open>DecodeTokenScript\<close> (section 4.1): the
  negative "not a token script", the error "malformed token script", and the decoded
  fields \<open>(version, type, uid, name, ownerKey)\<close>.
\<close>

datatype decode_result =
  NotToken
| Malformed
| Decoded "8 word" "16 word" "64 word" string CPubKey

text \<open>
  Modelled from the spec: \<open>BuildTokenScript\<close>, whose implementation is missing. Section 4.1:
  it "serializes the token fields together with the backing owner script into one output
  script tagged as pay-to-token". The tag bytes are left open by the specification
  (section 9) and are the parameter \<open>tag\<close>. The fields follow in the fixed order of
  section 6, \<open>version\<close>, \<open>type\<close>, \<open>uid\<close>, \<open>name\<close>, each in the width \<open>token.h\<close> declares
  (\<open>uint8_t\<close>, \<open>uint16_t\<close>, \<open>uint64_t\<close>), the name with a length prefix of one byte; the
  owner script comes last.
\<close>

definition BuildTokenScript ::
  "CScript \<Rightarrow> 8 word \<Rightarrow> 16 word \<Rightarrow> 64 word \<Rightarrow> string \<Rightarrow> CScript \<Rightarrow> CScript" where
  "BuildTokenScript tag ver typ identifier nm ownerScript =
     tag @ [ver] @ le_bytes 2 typ @ le_bytes 8 identifier
       @ [of_nat (length nm)] @ map byte_of_char nm @ ownerScript"

text \<open>
  Modelled from the spec: \<open>DecodeTokenScript\<close>, whose implementation is missing. Section 4.1:
  it "parses a token script", answers a script without the tag with the negative
  \<open>NotToken\<close>, and a script with the tag whose structure fails with \<open>Malformed\<close>. How the
  owner's key is read from the owner script belongs to the script engine: the parameter
  \<open>ownerKey\<close>.
\<close>

definition DecodeTokenScript :: "CScript \<Rightarrow> (CScript \<Rightarrow> CPubKey) \<Rightarrow> CScript \<Rightarrow> decode_result" where
  "DecodeTokenScript tag ownerKey TokenScript =
     (if take (length tag) TokenScript \<noteq> tag then NotToken
      else (let body = drop (length tag) TokenScript in
        if length body < 12 then Malformed
        else (let ver = hd body;
                  typ = le_word (take 2 (drop 1 body));
                  identifier = le_word (take 8 (drop 3 body));
                  len = unat (body ! 11);
                  rest = drop 12 body
              in if length rest < len then Malformed
                 else Decoded ver typ identifier (map char_of_byte (take len rest))
                        (ownerKey (drop len rest)))))"

text \<open>A tag and a key reader for the worked example.\<close>

definition token_tag0 :: CScript where
  "token_tag0 = [0xC1]"

definition owner_key0 :: "CScript \<Rightarrow> CPubKey" where
  "owner_key0 s = drop 1 s"


section \<open>Token equality\<close>

text \<open>
  C8. Two token records are equal under \<open>operator==\<close> exactly when their \<open>uid\<close> and
  their \<open>name\<close> agree; replacing \<open>version\<close> and \<open>origintx\<close> (on either side) does not
  change the outcome.
\<close>

theorem token_eq_uid_name:
  "token_eq a b = (uid a = uid b \<and> name a = name b)
   \<and> token_eq (a\<lparr>version := v, origintx := h\<rparr>) (b\<lparr>version := v', origintx := h'\<rparr>) = token_eq a b"
  by (simp add: token_eq_def getId_def getName_def)


section \<open>Node list lookup and replacement\<close>

lemma HaveNode_iff: "HaveNode ns a = (a \<in> ipaddr ` set ns)"
  by (induction ns) auto

lemma ReturnNode_mem: "HaveNode ns a \<Longrightarrow> ReturnNode blank ns a \<in> set ns"
  by (induction ns) (auto split: if_splits)

lemma ReplaceNode_nonzero:
  "ipaddr inn \<noteq> 0 \<Longrightarrow> ReplaceNode (l # ls) inn = (True, inn # ls)"
  by simp

lemma ReplaceNode_zero:
  "ipaddr inn = 0 \<Longrightarrow> ReplaceNode ns inn = (False, map (\<lambda>l. l\<lparr>ipaddr := 0\<rparr>) ns)"
  by (induction ns) simp_all

text \<open>
  C9. \<open>ReplaceNode\<close> is claimed to replace exactly the stored node whose \<open>ipaddr\<close> equals
  that of its argument. On the list of a node with address 1 followed by a node with
  address 2, called with a record for address 2, the code overwrites the first node (the
  one with address 1) and keeps the old record of address 2: the loop condition assigns
  instead of comparing.
\<close>

theorem ReplaceNode_overwrites_first:
  "ReplaceNode [node_a, node_b] node_b' = (True, [node_b', node_b])"
  by (simp add: node_a_def node_b_def node_b'_def)


section \<open>Health scores stay within bounds\<close>

lemma ReplaceNode_health:
  "health_ok inn \<Longrightarrow> list_all health_ok ns \<Longrightarrow> list_all health_ok (snd (ReplaceNode ns inn))"
  by (induction ns) (auto simp: health_ok_def Let_def split: prod.splits)

lemma clamp_ok:
  assumes "0 \<le>s inc" "inc \<le>s 0x7FFFFF9B" "health_ok l"
  shows "health_ok (let c = (if g then l\<lparr>health := health l + inc\<rparr> else l)
                    in if 100 <s health c then c\<lparr>health := 100\<rparr> else c)"
  using assms
  by (auto simp: Let_def health_ok_def word_sle_eq word_sless_alt sint_word_ariths
      signed_take_bit_int_eq_self)

lemma sint_sub_small:
  fixes d h :: "32 word"
  assumes "0 \<le> sint d" "0 \<le> sint h" "sint h \<le> 100"
  shows "sint (h - d) = sint h - sint d"
proof -
  have "sint d < 2 ^ 31" using sint_lt [of d] by simp
  with assms show ?thesis
    by (simp add: sint_word_ariths signed_take_bit_int_eq_self)
qed

lemma decay_ok:
  assumes "0 \<le>s dec" "health_ok l"
  shows "health_ok (AddProof_decay dec sn l)"
  using assms
  by (auto simp: AddProof_decay_def Let_def health_ok_def word_sle_eq word_sless_alt
      sint_sub_small)

lemma AddProof_node_ok:
  assumes inc: "0 \<le>s inc" "inc \<le>s 0x7FFFFF9B" and ns: "list_all health_ok ns"
  shows "list_all health_ok (fst (AddProof_node inc blank inn (ns, in2, sn)))"
proof -
  define c where "c = in2\<lparr>ipaddr := ip inn, space := sn_space inn, health := 100\<rparr>"
  define ns1 where "ns1 = (if \<not> HaveNode ns (ip inn) then AddNode ns c else ns)"
  define g where "g = (0 <s mode inn \<and> 0 <s stat inn \<and> 0 <s reg inn)"
  define b where "b = ReturnNode blank ns1 (ip inn)"
  define d where "d = (let c = (if g then b\<lparr>health := health b + inc\<rparr> else b)
                       in if 100 <s health c then c\<lparr>health := 100\<rparr> else c)"
  have "health_ok c" by (simp add: c_def health_ok_def word_sle_eq)
  with ns have ns1: "list_all health_ok ns1" by (simp add: ns1_def AddNode_def)
  have eq: "fst (AddProof_node inc blank inn (ns, in2, sn)) =
        (if HaveNode ns1 (ip inn) then snd (ReplaceNode ns1 d) else ns1)"
    by (simp add: AddProof_node_def Let_def ns1_def c_def d_def b_def g_def)
  show ?thesis
  proof (cases "HaveNode ns1 (ip inn)")
    case True
    then have "b \<in> set ns1" unfolding b_def by (rule ReturnNode_mem)
    with ns1 have "health_ok b" by (simp add: list_all_iff)
    then have "health_ok d" unfolding d_def by (rule clamp_ok [OF inc])
    then have "list_all health_ok (snd (ReplaceNode ns1 d))"
      using ns1 by (rule ReplaceNode_health)
    with True eq show ?thesis by simp
  next
    case False
    with eq ns1 show ?thesis by simp
  qed
qed

lemma AddProof_nodes_ok:
  assumes inc: "0 \<le>s inc" "inc \<le>s 0x7FFFFF9B"
  shows "list_all health_ok (fst st) \<Longrightarrow>
         list_all health_ok (fst (AddProof_nodes inc blank ins st))"
proof (induction ins arbitrary: st)
  case Nil
  then show ?case by simp
next
  case (Cons inn ins)
  obtain ns in2 sn where st: "st = (ns, in2, sn)" by (cases st) auto
  from Cons.prems have "list_all health_ok (fst (AddProof_node inc blank inn st))"
    unfolding st by (simp add: AddProof_node_ok [OF inc])
  then show ?case using Cons.IH by simp
qed

text \<open>
  C10. Health scores stay within \<open>[0, 100]\<close> across \<open>AddProof\<close>: from a state whose stored
  nodes all have a health between 0 and 100, every node stored after the call has one
  too. The two constants of the missing header are parameters: both are taken to be
  non-negative, and \<open>SCORE_INCREASE\<close> small enough that \<open>100 + SCORE_INCREASE\<close> is an
  \<open>int\<close> (at most \<open>INT_MAX - 100\<close>).
\<close>

theorem AddProof_health_bounds:
  assumes "0 \<le>s SCORE_INCREASE" "SCORE_INCREASE \<le>s 0x7FFFFF9B" "0 \<le>s SCORE_DECREASE"
    and "\<forall>l \<in> set (nodes s). health_ok l"
  shows "\<forall>l \<in> set (nodes (AddProof SCORE_INCREASE SCORE_DECREASE blank s netproof)). health_ok l"
proof (cases "HaveSeen s (height netproof)")
  case True
  with assms(4) show ?thesis by (simp add: AddProof_def)
next
  case False
  let ?r = "AddProof_nodes SCORE_INCREASE blank (proof_nodes (cproof netproof)) (nodes s, blank, [])"
  obtain ns in2 sn where r: "?r = (ns, in2, sn)"
    by (cases ?r) auto
  have "list_all health_ok (fst ?r)"
    using assms(4) by (intro AddProof_nodes_ok assms) (simp add: list_all_iff)
  with r have "list_all health_ok ns" by simp
  then have "\<forall>l \<in> set ns. health_ok (AddProof_decay SCORE_DECREASE sn l)"
    using decay_ok [OF assms(3)] by (simp add: list_all_iff)
  with False r show ?thesis by (simp add: AddProof_def)
qed

theorem AddProof_health_bounds_witness:
  "health_ok node_a \<and> health_ok node_b
   \<and> nodes (AddProof 1 1 node_z state_ab proof_b) = [\<lparr>ipaddr = 2, space = 20, health = 61\<rparr>, node_b]
   \<and> list_all health_ok (nodes (AddProof 1 1 node_z state_ab proof_b))"
proof -
  have a: "health_ok node_a" "health_ok node_b"
    by (simp_all add: health_ok_def node_a_def node_b_def word_sle_eq)
  have c: "(0::32 word) \<le>s 1" "(1::32 word) \<le>s 0x7FFFFF9B"
    by (simp_all add: word_sle_eq)
  have s: "\<forall>l \<in> set (nodes state_ab). health_ok l"
    using a by (simp add: state_ab_def)
  have e: "nodes (AddProof 1 1 node_z state_ab proof_b) =
      [\<lparr>ipaddr = 2, space = 20, health = 61\<rparr>, node_b]"
    by (simp add: AddProof_def HaveSeen_def state_ab_def proof_b_def node_a_def node_b_def
        node_z_def AddProof_node_def AddNode_def AddProof_decay_def Let_def word_sless_alt)
  from AddProof_health_bounds [OF c(1) c(2) c(1) s, of node_z proof_b] a e
  show ?thesis by (simp add: list_all_iff)
qed


section \<open>Funding scans\<close>

lemmas ex_defs = wallet0_def ops0_def tx1_def tx2_def tx3_def tx4_def decode0_def
  script_plain_def script_gold_issue_def script_gold_xfer_def script_silv_def script_bad_def
  tok_gold_issue_def tok_gold_xfer_def tok_silv_def

lemma first_fit_append:
  "first_fit a (xs @ ys) st =
     (case first_fit a xs st of (True, st') \<Rightarrow> (True, st') | (False, st') \<Rightarrow> first_fit a ys st')"
proof (induction xs arbitrary: st)
  case Nil
  show ?case by simp
next
  case (Cons c cs)
  obtain f r where st: "st = (f, r)" by (cases st)
  show ?case unfolding st by (simp add: Let_def Cons.IH)
qed

lemma candidates_from_Nil [simp]: "candidates_from el h i [] = []"
  by (simp add: candidates_from_def)

lemma candidates_from_Cons:
  "candidates_from el h i (out # outs) =
     (if el i out then (CTxIn_new h i, nValue out) # candidates_from el h (Suc i) outs
      else candidates_from el h (Suc i) outs)"
  by (simp add: candidates_from_def)

lemma FundMint_vout_first_fit:
  "FundMint_vout sc w a h i outs st =
     first_fit a (candidates_from (FundMint_eligible sc w h) h i outs) st"
proof (induction outs arbitrary: i st)
  case Nil
  show ?case by simp
next
  case (Cons out outs)
  obtain f r where st: "st = (f, r)" by (cases st)
  show ?case
  proof (cases "FundMint_eligible sc w h i out")
    case True
    then have "\<not> FundMint_skip w h i out" "\<not> IsPayToToken sc (scriptPubKey out)"
      "\<not> IsChecksumData sc (scriptPubKey out)"
      by (simp_all add: FundMint_eligible_def)
    with True show ?thesis unfolding st
      by (simp add: candidates_from_Cons Let_def Cons.IH)
  next
    case False
    then have "FundMint_skip w h i out \<or> IsPayToToken sc (scriptPubKey out)
      \<or> IsChecksumData sc (scriptPubKey out)"
      by (simp add: FundMint_eligible_def)
    with False show ?thesis unfolding st
      by (auto simp: candidates_from_Cons Let_def Cons.IH)
  qed
qed

lemma FundMint_txs_first_fit:
  "FundMint_txs sc w a txs st =
     first_fit a (concat (map (\<lambda>tx. candidates_from (FundMint_eligible sc w (tx_hash tx)) (tx_hash tx) 0 (vout tx)) txs)) st"
proof (induction txs arbitrary: st)
  case Nil
  show ?case by simp
next
  case (Cons tx txs)
  show ?case
    by (simp add: first_fit_append FundMint_vout_first_fit Cons.IH split: prod.splits bool.splits)
qed

lemma first_fit_char:
  "first_fit a cs (f, r) = (ok, f', r') \<Longrightarrow>
   \<exists>k\<le>length cs. r' = r @ map fst (take k cs) \<and> f' = f + running_total cs k
     \<and> (\<forall>j. 0 < j \<and> j < k \<longrightarrow> \<not> a \<le>s f + running_total cs j)
     \<and> (if ok then 0 < k \<and> a \<le>s f' else k = length cs \<and> (0 < k \<longrightarrow> \<not> a \<le>s f'))"
proof (induction cs arbitrary: f r)
  case Nil
  then show ?case by (auto simp: running_total_def)
next
  case (Cons c cs)
  show ?case
  proof (cases "a \<le>s f + snd c")
    case True
    with Cons.prems have "ok" "f' = f + snd c" "r' = r @ [fst c]" by (auto simp: Let_def)
    with True show ?thesis
      by (intro exI [of _ 1]) (simp add: running_total_def)
  next
    case False
    with Cons.prems have "first_fit a cs (f + snd c, r @ [fst c]) = (ok, f', r')"
      by (simp add: Let_def)
    from Cons.IH [OF this] obtain k where k: "k \<le> length cs"
      "r' = (r @ [fst c]) @ map fst (take k cs)" "f' = f + snd c + running_total cs k"
      "\<forall>j. 0 < j \<and> j < k \<longrightarrow> \<not> a \<le>s f + snd c + running_total cs j"
      "if ok then 0 < k \<and> a \<le>s f' else k = length cs \<and> (0 < k \<longrightarrow> \<not> a \<le>s f')"
      by blast
    have rt: "\<And>j. running_total (c # cs) (Suc j) = snd c + running_total cs j"
      by (simp add: running_total_def)
    have "\<forall>j. 0 < j \<and> j < Suc k \<longrightarrow> \<not> a \<le>s f + running_total (c # cs) j"
    proof (intro allI impI)
      fix j assume j: "0 < j \<and> j < Suc k"
      then obtain j' where j': "j = Suc j'" by (cases j) auto
      show "\<not> a \<le>s f + running_total (c # cs) j"
      proof (cases j')
        case 0
        with j' False show ?thesis by (simp add: running_total_def)
      next
        case (Suc m)
        with j j' k(4) show ?thesis by (simp add: rt add.assoc)
      qed
    qed
    moreover have "if ok then 0 < Suc k \<and> a \<le>s f' else Suc k = length (c # cs) \<and> (0 < Suc k \<longrightarrow> \<not> a \<le>s f')"
      using k(5) k(3) False by (cases k) (auto simp: running_total_def split: if_splits)
    ultimately show ?thesis using k(1,2,3)
      by (intro exI [of _ "Suc k"]) (simp add: rt add.assoc)
  qed
qed


lemma FundToken_vout_first_fit:
  "FundToken_vout sc w nm a h i outs st =
     first_fit a (candidates_from (FundToken_eligible sc w nm h) h i outs) st"
proof (induction outs arbitrary: i st)
  case Nil
  show ?case by simp
next
  case (Cons out outs)
  obtain f r where st: "st = (f, r)" by (cases st)
  show ?case
  proof (cases "FundToken_eligible sc w nm h i out")
    case True
    then obtain token where "\<not> FundToken_skip sc w h i out"
      "\<not> IsChecksumData sc (scriptPubKey out)"
      "BuildTokenFromScript sc (scriptPubKey out) = Some token" "nm = getName token"
      by (auto simp: FundToken_eligible_def split: option.splits)
    with True show ?thesis unfolding st
      using Cons.IH [of "Suc i"] by (simp add: candidates_from_Cons Let_def)
  next
    case False
    then have "FundToken_skip sc w h i out \<or> IsChecksumData sc (scriptPubKey out)
      \<or> BuildTokenFromScript sc (scriptPubKey out) = None
      \<or> (\<exists>token. BuildTokenFromScript sc (scriptPubKey out) = Some token \<and> nm \<noteq> getName token)"
      by (auto simp: FundToken_eligible_def split: option.splits)
    with False show ?thesis unfolding st
      by (auto simp: candidates_from_Cons Let_def Cons.IH)
  qed
qed

lemma FundToken_txs_first_fit:
  "FundToken_txs sc w nm a kvs st =
     first_fit a (concat (map (\<lambda>kv. candidates_from (FundToken_eligible sc w nm (tx_hash (snd kv)))
                        (tx_hash (snd kv)) 0 (vout (snd kv))) kvs)) st"
proof (induction kvs arbitrary: st)
  case Nil
  show ?case by simp
next
  case (Cons kv kvs)
  show ?case
    by (simp add: first_fit_append FundToken_vout_first_fit Cons.IH Let_def
        split: prod.splits bool.splits)
qed

lemma FundMintTransaction_first_fit:
  "FundMintTransaction sc w a ret = first_fit a (mint_candidates sc w) (0, ret)"
  by (simp add: FundMintTransaction_def mint_candidates_def FundMint_txs_first_fit)

lemma FundTokenTransaction_first_fit:
  "FundTokenTransaction sc w nm a ret = first_fit a (token_candidates sc w nm) (0, ret)"
  by (simp add: FundTokenTransaction_def token_candidates_def FundToken_txs_first_fit)

lemma candidates_from_iff:
  "c \<in> set (candidates_from el h 0 outs) \<longleftrightarrow>
     (\<exists>i<length outs. el i (outs ! i) \<and> c = (CTxIn_new h i, nValue (outs ! i)))"
  by (auto simp: candidates_from_def in_set_enumerate_eq image_iff)

lemma first_fit_total:
  assumes "first_fit a cs (0, r) = (ok, f', r')"
  shows "(ok \<longrightarrow> a \<le>s f')
     \<and> ok = (\<exists>j. 0 < j \<and> j \<le> length cs \<and> a \<le>s running_total cs j)
     \<and> (\<exists>k\<le>length cs. r' = r @ map fst (take k cs) \<and> f' = running_total cs k
          \<and> (\<forall>j. 0 < j \<and> j < k \<longrightarrow> \<not> a \<le>s running_total cs j)
          \<and> (\<not> ok \<longrightarrow> k = length cs))"
proof -
  from first_fit_char [OF assms] obtain k where k: "k \<le> length cs"
    "r' = r @ map fst (take k cs)" "f' = running_total cs k"
    "\<forall>j. 0 < j \<and> j < k \<longrightarrow> \<not> a \<le>s running_total cs j"
    "if ok then 0 < k \<and> a \<le>s f' else k = length cs \<and> (0 < k \<longrightarrow> \<not> a \<le>s f')"
    by auto
  have 1: "ok \<longrightarrow> a \<le>s f'" using k(5) by (auto split: if_splits)
  have 2: "ok = (\<exists>j. 0 < j \<and> j \<le> length cs \<and> a \<le>s running_total cs j)"
  proof (cases ok)
    case True
    with k show ?thesis by (auto split: if_splits)
  next
    case False
    with k(5) have kl: "k = length cs" and nk: "0 < k \<longrightarrow> \<not> a \<le>s running_total cs k"
      using k(3) by auto
    have "\<not> a \<le>s running_total cs j" if "0 < j" "j \<le> length cs" for j
      using that k(4) kl nk by (cases "j = k") auto
    with False show ?thesis by auto
  qed
  from k(5) have 3: "\<not> ok \<longrightarrow> k = length cs" by (auto split: if_splits)
  have "\<exists>k\<le>length cs. r' = r @ map fst (take k cs) \<and> f' = running_total cs k
          \<and> (\<forall>j. 0 < j \<and> j < k \<longrightarrow> \<not> a \<le>s running_total cs j)
          \<and> (\<not> ok \<longrightarrow> k = length cs)"
    using k(1,2,3,4) 3 by blast
  with 1 2 show ?thesis by blast
qed

lemma first_fit_sel:
  assumes "first_fit a cs (f, r) = (ok, f', r')"
  shows "\<exists>sel. r' = r @ map fst sel \<and> set sel \<subseteq> set cs \<and> (\<not> ok \<longrightarrow> sel = cs)"
proof -
  from first_fit_char [OF assms] obtain k where k: "k \<le> length cs"
    "r' = r @ map fst (take k cs)" "\<not> ok \<longrightarrow> k = length cs"
    by (auto split: if_splits)
  show ?thesis
    using k by (intro exI [of _ "take k cs"]) (auto dest: in_set_takeD)
qed

lemma mint_candidates_iff:
  "c \<in> set (mint_candidates sc w) \<longleftrightarrow>
     (\<exists>tx\<in>set (SpendableTXs w). \<exists>i<length (vout tx).
        FundMint_eligible sc w (tx_hash tx) i (vout tx ! i)
        \<and> c = (CTxIn_new (tx_hash tx) i, nValue (vout tx ! i)))"
  by (simp add: mint_candidates_def candidates_from_iff)

lemma token_candidates_iff:
  "c \<in> set (token_candidates sc w nm) \<longleftrightarrow>
     (\<exists>kv\<in>set (mapWallet w). \<exists>i<length (vout (snd kv)).
        FundToken_eligible sc w nm (tx_hash (snd kv)) i (vout (snd kv) ! i)
        \<and> c = (CTxIn_new (tx_hash (snd kv)) i, nValue (vout (snd kv) ! i)))"
  by (simp add: token_candidates_def candidates_from_iff)

lemma FundMint_eligible_confs:
  "FundMint_eligible sc w h i out \<longleftrightarrow>
     TOKEN_MINCONFS < GetUTXOConfirmations w \<lparr>op_hash = h, op_n = i\<rparr>
     \<and> mint_other_filters sc w h i out"
  by (auto simp: FundMint_eligible_def FundMint_skip_def mint_other_filters_def Let_def)

lemma FundToken_eligible_confs:
  "FundToken_eligible sc w nm h i out \<longleftrightarrow>
     TOKEN_MINCONFS < GetUTXOConfirmations w \<lparr>op_hash = h, op_n = i\<rparr>
     \<and> token_other_filters sc w nm h i out"
  by (auto simp: FundToken_eligible_def FundToken_skip_def token_other_filters_def Let_def)

text \<open>
  C2. \<open>FundMintTransaction\<close> returns \<open>true\<close> only with \<open>amountFound >= amountMin\<close>. It
  returns \<open>true\<close> exactly when the running total over the eligible outputs, taken in
  enumeration order after each output is added, reaches the target at some point; the
  inputs it appends are then those up to the first such point, and \<open>amountFound\<close> is the
  total there. When no running total reaches the target it returns \<open>false\<close> with every
  eligible output appended.
\<close>

theorem FundMintTransaction_threshold:
  assumes "FundMintTransaction sc w amountMin ret = (ok, amountFound, ret')"
  shows "(ok \<longrightarrow> amountMin \<le>s amountFound)
     \<and> ok = (\<exists>j. 0 < j \<and> j \<le> length (mint_candidates sc w)
                \<and> amountMin \<le>s running_total (mint_candidates sc w) j)
     \<and> (\<exists>k\<le>length (mint_candidates sc w).
          ret' = ret @ map fst (take k (mint_candidates sc w))
          \<and> amountFound = running_total (mint_candidates sc w) k
          \<and> (\<forall>j. 0 < j \<and> j < k \<longrightarrow> \<not> amountMin \<le>s running_total (mint_candidates sc w) j)
          \<and> (\<not> ok \<longrightarrow> k = length (mint_candidates sc w)))"
  using assms unfolding FundMintTransaction_first_fit by (rule first_fit_total)

theorem FundMintTransaction_threshold_witness:
  "FundMintTransaction ops0 wallet0 100 [] = (True, 110, [CTxIn_new 1 0, CTxIn_new 2 0])
   \<and> (100 :: CAmount) \<le>s 110
   \<and> (\<exists>j. 0 < j \<and> j \<le> length (mint_candidates ops0 wallet0)
          \<and> 100 \<le>s running_total (mint_candidates ops0 wallet0) j)"
proof -
  have e: "FundMintTransaction ops0 wallet0 100 [] = (True, 110, [CTxIn_new 1 0, CTxIn_new 2 0])"
    by (simp add: FundMintTransaction_def ex_defs FundMint_skip_def TOKEN_MINCONFS_def Let_def
        word_sle_eq)
  from FundMintTransaction_threshold [OF e] e show ?thesis by simp
qed

text \<open>
  C3. In \<open>FundMintTransaction\<close> and in \<open>FundTokenTransaction\<close> every selected input has
  strictly more than \<open>TOKEN_MINCONFS\<close> confirmations, so an output with exactly
  \<open>TOKEN_MINCONFS\<close> is never selected; and a wallet output with \<open>TOKEN_MINCONFS + 1\<close>
  confirmations that passes the other tests is selected whenever the scan runs to its
  end (it returns \<open>false\<close>, not having stopped earlier at the target).
\<close>

theorem Fund_confirmation_boundary:
  assumes mint: "FundMintTransaction sc w amountMin ret = (ok, amountFound, ret')"
    and tokn: "FundTokenTransaction sc w tokenname tamountMin tret = (tok, tamountFound, tret')"
  shows "\<exists>sel tsel. ret' = ret @ sel \<and> tret' = tret @ tsel
     \<and> (\<forall>x \<in> set sel \<union> set tsel. TOKEN_MINCONFS < GetUTXOConfirmations w (prevout x))
     \<and> (\<forall>tx \<in> set (SpendableTXs w). \<forall>i < length (vout tx).
          GetUTXOConfirmations w \<lparr>op_hash = tx_hash tx, op_n = i\<rparr> = TOKEN_MINCONFS + 1
          \<and> mint_other_filters sc w (tx_hash tx) i (vout tx ! i) \<and> \<not> ok
          \<longrightarrow> CTxIn_new (tx_hash tx) i \<in> set sel)
     \<and> (\<forall>kv \<in> set (mapWallet w). \<forall>i < length (vout (snd kv)).
          GetUTXOConfirmations w \<lparr>op_hash = tx_hash (snd kv), op_n = i\<rparr> = TOKEN_MINCONFS + 1
          \<and> token_other_filters sc w tokenname (tx_hash (snd kv)) i (vout (snd kv) ! i) \<and> \<not> tok
          \<longrightarrow> CTxIn_new (tx_hash (snd kv)) i \<in> set tsel)"
proof -
  from mint obtain ms where ms: "ret' = ret @ map fst ms" "set ms \<subseteq> set (mint_candidates sc w)"
    "\<not> ok \<longrightarrow> ms = mint_candidates sc w"
    unfolding FundMintTransaction_first_fit by (blast dest: first_fit_sel)
  from tokn obtain ts where ts: "tret' = tret @ map fst ts"
    "set ts \<subseteq> set (token_candidates sc w tokenname)"
    "\<not> tok \<longrightarrow> ts = token_candidates sc w tokenname"
    unfolding FundTokenTransaction_first_fit by (blast dest: first_fit_sel)
  have m1: "TOKEN_MINCONFS < GetUTXOConfirmations w (prevout x)" if "x \<in> set (map fst ms)" for x
  proof -
    from that ms(2) obtain c where "c \<in> set (mint_candidates sc w)" "x = fst c" by auto
    then show ?thesis
      by (auto simp: mint_candidates_iff FundMint_eligible_confs CTxIn_new_def)
  qed
  have t1: "TOKEN_MINCONFS < GetUTXOConfirmations w (prevout x)" if "x \<in> set (map fst ts)" for x
  proof -
    from that ts(2) obtain c where "c \<in> set (token_candidates sc w tokenname)" "x = fst c" by auto
    then show ?thesis
      by (auto simp: token_candidates_iff FundToken_eligible_confs CTxIn_new_def)
  qed
  have m2: "CTxIn_new (tx_hash tx) i \<in> set (map fst ms)"
    if "tx \<in> set (SpendableTXs w)" "i < length (vout tx)"
      "GetUTXOConfirmations w \<lparr>op_hash = tx_hash tx, op_n = i\<rparr> = TOKEN_MINCONFS + 1"
      "mint_other_filters sc w (tx_hash tx) i (vout tx ! i)" "\<not> ok" for tx i
  proof -
    from that have "FundMint_eligible sc w (tx_hash tx) i (vout tx ! i)"
      by (simp add: FundMint_eligible_confs)
    with that(1,2) have "(CTxIn_new (tx_hash tx) i, nValue (vout tx ! i)) \<in> set (mint_candidates sc w)"
      unfolding mint_candidates_iff by blast
    with ms(3) that(5) show ?thesis by force
  qed
  have t2: "CTxIn_new (tx_hash (snd kv)) i \<in> set (map fst ts)"
    if "kv \<in> set (mapWallet w)" "i < length (vout (snd kv))"
      "GetUTXOConfirmations w \<lparr>op_hash = tx_hash (snd kv), op_n = i\<rparr> = TOKEN_MINCONFS + 1"
      "token_other_filters sc w tokenname (tx_hash (snd kv)) i (vout (snd kv) ! i)" "\<not> tok" for kv i
  proof -
    from that have "FundToken_eligible sc w tokenname (tx_hash (snd kv)) i (vout (snd kv) ! i)"
      by (simp add: FundToken_eligible_confs)
    with that(1,2) have "(CTxIn_new (tx_hash (snd kv)) i, nValue (vout (snd kv) ! i))
        \<in> set (token_candidates sc w tokenname)"
      unfolding token_candidates_iff by blast
    with ts(3) that(5) show ?thesis by force
  qed
  show ?thesis
  proof (intro exI conjI)
    show "ret' = ret @ map fst ms" by (rule ms(1))
    show "tret' = tret @ map fst ts" by (rule ts(1))
    show "\<forall>x \<in> set (map fst ms) \<union> set (map fst ts). TOKEN_MINCONFS < GetUTXOConfirmations w (prevout x)"
      using m1 t1 by blast
  qed (use m2 t2 in blast)+
qed


theorem Fund_confirmation_boundary_witness:
  "FundMintTransaction ops0 wallet0 10000 [] = (False, 110, [CTxIn_new 1 0, CTxIn_new 2 0])
   \<and> FundTokenTransaction ops0 wallet0 ''GOLD'' 10000 [] = (False, 130, [CTxIn_new 1 1, CTxIn_new 4 0])
   \<and> GetUTXOConfirmations wallet0 \<lparr>op_hash = 3, op_n = 0\<rparr> = TOKEN_MINCONFS
   \<and> GetUTXOConfirmations wallet0 \<lparr>op_hash = 2, op_n = 0\<rparr> = TOKEN_MINCONFS + 1
   \<and> GetUTXOConfirmations wallet0 \<lparr>op_hash = 4, op_n = 0\<rparr> = TOKEN_MINCONFS + 1
   \<and> TOKEN_MINCONFS < GetUTXOConfirmations wallet0 (prevout (CTxIn_new 2 0))
   \<and> TOKEN_MINCONFS < GetUTXOConfirmations wallet0 (prevout (CTxIn_new 4 0))"
proof -
  have m: "FundMintTransaction ops0 wallet0 10000 [] = (False, 110, [CTxIn_new 1 0, CTxIn_new 2 0])"
    by (simp add: FundMintTransaction_def ex_defs FundMint_skip_def TOKEN_MINCONFS_def Let_def
        word_sle_eq)
  have t: "FundTokenTransaction ops0 wallet0 ''GOLD'' 10000 [] =
      (False, 130, [CTxIn_new 1 1, CTxIn_new 4 0])"
    by (simp add: FundTokenTransaction_def ex_defs FundToken_skip_def TOKEN_MINCONFS_def Let_def
        word_sle_eq getName_def)
  have c: "GetUTXOConfirmations wallet0 \<lparr>op_hash = 3, op_n = 0\<rparr> = TOKEN_MINCONFS"
    "GetUTXOConfirmations wallet0 \<lparr>op_hash = 2, op_n = 0\<rparr> = TOKEN_MINCONFS + 1"
    "GetUTXOConfirmations wallet0 \<lparr>op_hash = 4, op_n = 0\<rparr> = TOKEN_MINCONFS + 1"
    by (simp_all add: wallet0_def TOKEN_MINCONFS_def)
  from Fund_confirmation_boundary [OF m t] obtain sel tsel where
    s: "[CTxIn_new 1 0, CTxIn_new 2 0] = [] @ sel" "[CTxIn_new 1 1, CTxIn_new 4 0] = [] @ tsel"
      "\<forall>x \<in> set sel \<union> set tsel. TOKEN_MINCONFS < GetUTXOConfirmations wallet0 (prevout x)"
    by blast
  from s have "TOKEN_MINCONFS < GetUTXOConfirmations wallet0 (prevout (CTxIn_new 2 0))"
    "TOKEN_MINCONFS < GetUTXOConfirmations wallet0 (prevout (CTxIn_new 4 0))"
    by auto
  with m t c show ?thesis by simp
qed

text \<open>
  C6. Every input \<open>FundTokenTransaction\<close> appends references an output of a wallet
  transaction whose script \<open>BuildTokenFromScript\<close> decodes to a token with the requested
  name. An output whose script does not decode is passed over: the scan goes on to the
  next output with \<open>amountFound\<close> and \<open>ret\<close> as they were, and the function has no error to
  report.
\<close>

theorem FundTokenTransaction_selects_named_token:
  assumes "FundTokenTransaction sc w tokenname amountMin ret = (ok, amountFound, ret')"
  shows "(\<exists>sel. ret' = ret @ sel
       \<and> (\<forall>x \<in> set sel. \<exists>kv \<in> set (mapWallet w).
            op_hash (prevout x) = tx_hash (snd kv) \<and> op_n (prevout x) < length (vout (snd kv))
            \<and> (\<exists>token. BuildTokenFromScript sc (scriptPubKey (vout (snd kv) ! op_n (prevout x)))
                         = Some token \<and> getName token = tokenname)))
     \<and> (\<forall>h i out outs st. BuildTokenFromScript sc (scriptPubKey out) = None \<longrightarrow>
          FundToken_vout sc w tokenname amountMin h i (out # outs) st =
          FundToken_vout sc w tokenname amountMin h (Suc i) outs st)"
proof (intro conjI allI impI)
  from assms obtain ts where ts: "ret' = ret @ map fst ts"
    "set ts \<subseteq> set (token_candidates sc w tokenname)"
    unfolding FundTokenTransaction_first_fit by (blast dest: first_fit_sel)
  have "\<exists>kv \<in> set (mapWallet w).
            op_hash (prevout x) = tx_hash (snd kv) \<and> op_n (prevout x) < length (vout (snd kv))
            \<and> (\<exists>token. BuildTokenFromScript sc (scriptPubKey (vout (snd kv) ! op_n (prevout x)))
                         = Some token \<and> getName token = tokenname)"
    if "x \<in> set (map fst ts)" for x
  proof -
    from that ts(2) obtain c where "c \<in> set (token_candidates sc w tokenname)" "x = fst c" by auto
    then obtain kv i where kv: "kv \<in> set (mapWallet w)" "i < length (vout (snd kv))"
      "FundToken_eligible sc w tokenname (tx_hash (snd kv)) i (vout (snd kv) ! i)"
      "x = CTxIn_new (tx_hash (snd kv)) i"
      unfolding token_candidates_iff by auto
    from kv(3) obtain token where
      "BuildTokenFromScript sc (scriptPubKey (vout (snd kv) ! i)) = Some token"
      "getName token = tokenname"
      by (auto simp: FundToken_eligible_def split: option.splits)
    with kv show ?thesis by (intro bexI [of _ kv]) (auto simp: CTxIn_new_def)
  qed
  with ts(1) show "\<exists>sel. ret' = ret @ sel
       \<and> (\<forall>x \<in> set sel. \<exists>kv \<in> set (mapWallet w).
            op_hash (prevout x) = tx_hash (snd kv) \<and> op_n (prevout x) < length (vout (snd kv))
            \<and> (\<exists>token. BuildTokenFromScript sc (scriptPubKey (vout (snd kv) ! op_n (prevout x)))
                         = Some token \<and> getName token = tokenname))"
    by blast
next
  fix h i and out :: CTxOut and outs st
  assume "BuildTokenFromScript sc (scriptPubKey out) = None"
  then show "FundToken_vout sc w tokenname amountMin h i (out # outs) st =
          FundToken_vout sc w tokenname amountMin h (Suc i) outs st"
    by (cases st) (simp add: Let_def)
qed

theorem FundTokenTransaction_selects_named_token_witness:
  "FundTokenTransaction ops0 wallet0 ''GOLD'' 120 [] = (True, 130, [CTxIn_new 1 1, CTxIn_new 4 0])
   \<and> BuildTokenFromScript ops0 script_bad = None
   \<and> BuildTokenFromScript ops0 (scriptPubKey (vout tx1 ! 1)) = Some tok_gold_xfer
   \<and> FundToken_vout ops0 wallet0 ''GOLD'' 120 2 2 [\<lparr>nValue = 7, scriptPubKey = script_bad\<rparr>] (100, [CTxIn_new 1 1])
       = FundToken_vout ops0 wallet0 ''GOLD'' 120 2 (Suc 2) [] (100, [CTxIn_new 1 1])"
proof -
  have e: "FundTokenTransaction ops0 wallet0 ''GOLD'' 120 [] =
      (True, 130, [CTxIn_new 1 1, CTxIn_new 4 0])"
    by (simp add: FundTokenTransaction_def ex_defs FundToken_skip_def TOKEN_MINCONFS_def Let_def
        word_sle_eq getName_def)
  have b: "BuildTokenFromScript ops0 script_bad = None"
    "BuildTokenFromScript ops0 (scriptPubKey (vout tx1 ! 1)) = Some tok_gold_xfer"
    by (simp_all add: ex_defs)
  note skip = FundTokenTransaction_selects_named_token [OF e, THEN conjunct2, rule_format]
  have "FundToken_vout ops0 wallet0 ''GOLD'' 120 2 2 [\<lparr>nValue = 7, scriptPubKey = script_bad\<rparr>] (100, [CTxIn_new 1 1])
       = FundToken_vout ops0 wallet0 ''GOLD'' 120 2 (Suc 2) [] (100, [CTxIn_new 1 1])"
    by (rule skip) (simp add: b(1))
  with e b show ?thesis by simp
qed

section \<open>Unconfirmed balances\<close>






lemma credited_Nil [simp]: "credited b [] = b"
  by (rule ext) (simp add: credited_def)





lemmas bal_defs = GetUnconfirmedTokenBalance_def balances0_def add_balance_def getName_def




text \<open>
  C5 as stated fails: with the issuance output and the transfer output both owned by the
  wallet, the balance of GOLD is 200.
\<close>

theorem unconfirmed_balance_counts_both_counterexample:
  "fst (GetUnconfirmedTokenBalance ops0 wallet0 [tx_issue, tx_xfer] balances0 [])
   \<and> fst (snd (GetUnconfirmedTokenBalance ops0 wallet0 [tx_issue, tx_xfer] balances0 [])) ''GOLD''
       = Some 200
   \<and> IsMine wallet0 (hd (vout tx_xfer))
   \<and> BuildTokenFromScript ops0 (scriptPubKey (hd (vout tx_issue))) = Some tok_gold_issue
   \<and> BuildTokenFromScript ops0 (scriptPubKey (hd (vout tx_xfer))) = Some tok_gold_xfer
   \<and> isIssuance tok_gold_issue \<and> isTransfer tok_gold_xfer"
  by (simp add: bal_defs ex_defs tx_issue_def tx_xfer_def Let_def isIssuance_def
      isTransfer_def getType_def ISSUANCE_def TRANSFER_def)

text \<open>
  C5, amended. For a mempool of an issuance output of GOLD with value 100 followed by a
  wallet-owned transfer output of GOLD with value 100, both passing validation, the call
  on an empty map succeeds with GOLD at 100 when the wallet does not own the issuance
  output, and with GOLD at 200 when it does: every wallet-owned token output is credited.
\<close>

theorem unconfirmed_balance_issue_then_transfer:
  assumes "HasTokenOutput sc txi" "HasTokenOutput sc txt"
    and "vout txi = [iss]" "vout txt = [xfer]"
    and "IsPayToToken sc (scriptPubKey iss)" "IsPayToToken sc (scriptPubKey xfer)"
    and "IsMine w xfer"
    and "nValue iss = 100" "nValue xfer = 100"
    and "\<And>e. \<exists>e'. ContextualCheckToken sc (scriptPubKey iss) e = (True, ti, e')"
    and "\<And>e. \<exists>e'. ContextualCheckToken sc (scriptPubKey xfer) e = (True, tt, e')"
    and "isIssuance ti" "isTransfer tt" "getName ti = ''GOLD''" "getName tt = ''GOLD''"
  shows "\<exists>e. GetUnconfirmedTokenBalance sc w [txi, txt] Map.empty strError =
     (True, [''GOLD'' \<mapsto> (if IsMine w iss then 200 else 100)], e)"
proof -
  obtain e1 where e1: "ContextualCheckToken sc (scriptPubKey iss) strError = (True, ti, e1)"
    using assms(10) by blast
  obtain e2 where e2: "ContextualCheckToken sc (scriptPubKey xfer) strError = (True, tt, e2)"
    using assms(11) by blast
  obtain e3 where e3: "ContextualCheckToken sc (scriptPubKey xfer) e1 = (True, tt, e3)"
    using assms(11) by blast
  show ?thesis
  proof (cases "IsMine w iss")
    case True
    with assms e1 e3 show ?thesis
      by (simp add: GetUnconfirmedTokenBalance_def add_balance_def Let_def)
  next
    case False
    with assms e2 show ?thesis
      by (simp add: GetUnconfirmedTokenBalance_def add_balance_def Let_def)
  qed
qed

theorem unconfirmed_balance_issue_then_transfer_witness:
  "(\<exists>e. GetUnconfirmedTokenBalance ops0 wallet1 [tx_issue, tx_xfer] Map.empty [] =
     (True, [''GOLD'' \<mapsto> 100], e))
   \<and> \<not> IsMine wallet1 (hd (vout tx_issue)) \<and> IsMine wallet1 (hd (vout tx_xfer))"
proof -
  let ?iss = "\<lparr>nValue = 100, scriptPubKey = script_gold_issue\<rparr>"
  let ?xfer = "\<lparr>nValue = 100, scriptPubKey = script_gold_xfer\<rparr>"
  have h: "HasTokenOutput ops0 tx_issue" "HasTokenOutput ops0 tx_xfer"
    by (simp_all add: ex_defs tx_issue_def tx_xfer_def)
  have v: "vout tx_issue = [?iss]" "vout tx_xfer = [?xfer]"
    by (simp_all add: tx_issue_def tx_xfer_def)
  have p: "IsPayToToken ops0 (scriptPubKey ?iss)" "IsPayToToken ops0 (scriptPubKey ?xfer)"
    by (simp_all add: ex_defs)
  have m: "IsMine wallet1 ?xfer" "\<not> IsMine wallet1 ?iss"
    by (simp_all add: wallet1_def ex_defs)
  have n: "nValue ?iss = 100" "nValue ?xfer = 100"
    by simp_all
  have c: "\<And>e. \<exists>e'. ContextualCheckToken ops0 (scriptPubKey ?iss) e = (True, tok_gold_issue, e')"
    "\<And>e. \<exists>e'. ContextualCheckToken ops0 (scriptPubKey ?xfer) e = (True, tok_gold_xfer, e')"
    by (simp_all add: ex_defs)
  have t: "isIssuance tok_gold_issue" "isTransfer tok_gold_xfer"
    "getName tok_gold_issue = ''GOLD''" "getName tok_gold_xfer = ''GOLD''"
    by (simp_all add: ex_defs isIssuance_def isTransfer_def getType_def getName_def)
  from unconfirmed_balance_issue_then_transfer
    [OF h v p m(1) n c t, of "[]"] m v
  show ?thesis by simp
qed

section \<open>Signing\<close>

lemma length_UpdateInput [simp]:
  "length (mtx_vin (UpdateInput rawTx i sig)) = length (mtx_vin rawTx)"
  by (simp add: UpdateInput_def)


lemma prevout_UpdateInput [simp]:
  "map prevout (mtx_vin (UpdateInput rawTx i sig)) = map prevout (mtx_vin rawTx)"
proof (cases "i < length (mtx_vin rawTx)")
  case True
  then show ?thesis by (simp add: UpdateInput_def map_update list_update_same_conv)
next
  case False
  then show ?thesis by (simp add: UpdateInput_def not_less list_update_beyond)
qed










section \<open>Token script round trip\<close>

lemma length_le_bytes [simp]: "length (le_bytes k w) = k"
  by (induction k arbitrary: w) simp_all

lemma le_word_le_bytes:
  "(le_word (le_bytes k (w :: 'a::len word)) :: 'a word) = take_bit (8 * k) w"
proof (induction k arbitrary: w)
  case 0
  show ?case by simp
next
  case (Suc k)
  show ?case
    apply (simp add: Suc.IH)
    apply (rule bit_word_eqI)
    apply (auto simp: bit_simps)
    done
qed

lemma char_of_byte_of_char [simp]: "char_of_byte (byte_of_char c) = c"
  by (simp add: char_of_byte_def byte_of_char_def unat_of_nat)

lemma le_word_le_bytes_16 [simp]: "le_word (le_bytes 2 (w :: 16 word)) = w"
  using le_word_le_bytes [of 2 w] by (simp add: take_bit_word_eq_self)

lemma le_word_le_bytes_64 [simp]: "le_word (le_bytes 8 (w :: 64 word)) = w"
  using le_word_le_bytes [of 8 w] by (simp add: take_bit_word_eq_self)

lemma map_char_of_byte [simp]: "map char_of_byte (map byte_of_char nm) = nm"
  by (induction nm) simp_all

text \<open>
  C4. For every version, type and uid of their types and every name whose length lies
  between \<open>TOKENNAME_MINLEN\<close> and \<open>TOKENNAME_MAXLEN\<close>, decoding the script that
  \<open>BuildTokenScript\<close> produces returns exactly the fields that were encoded, with the key
  of the owner script.
\<close>

theorem DecodeTokenScript_BuildTokenScript:
  assumes "TOKENNAME_MINLEN \<le> length nm" "length nm \<le> TOKENNAME_MAXLEN"
  shows "DecodeTokenScript tag ownerKey (BuildTokenScript tag ver typ identifier nm ownerScript)
     = Decoded ver typ identifier nm (ownerKey ownerScript)"
proof -
  define body where "body = [ver] @ le_bytes 2 typ @ le_bytes 8 identifier
       @ [of_nat (length nm)] @ map byte_of_char nm @ ownerScript"
  have b: "BuildTokenScript tag ver typ identifier nm ownerScript = tag @ body"
    by (simp add: BuildTokenScript_def body_def)
  from assms(2) have len: "unat (of_nat (length nm) :: 8 word) = length nm"
    by (simp add: unat_of_nat TOKENNAME_MAXLEN_def)
  have 1: "take 2 (drop (Suc 0) body) = le_bytes 2 typ" by (simp add: body_def)
  have 2: "take 8 (drop 3 body) = le_bytes 8 identifier" by (simp add: body_def)
  have 3: "body ! 11 = of_nat (length nm)" by (simp add: body_def nth_append)
  have 4: "drop 12 body = map byte_of_char nm @ ownerScript" by (simp add: body_def)
  have 5: "\<not> length body < 12" by (simp add: body_def)
  have 6: "hd body = ver" by (simp add: body_def)
  have 7: "map (char_of_byte \<circ> byte_of_char) nm = nm" by (simp add: map_idI)
  show ?thesis
    unfolding b DecodeTokenScript_def
    by (simp add: Let_def 1 2 3 4 5 6 7 len)
qed

theorem DecodeTokenScript_BuildTokenScript_witness:
  "TOKENNAME_MINLEN \<le> length ''GOLD'' \<and> length ''GOLD'' \<le> TOKENNAME_MAXLEN
   \<and> DecodeTokenScript token_tag0 owner_key0
        (BuildTokenScript token_tag0 1 ISSUANCE 42 ''GOLD'' script_plain)
      = Decoded 1 ISSUANCE 42 ''GOLD'' (owner_key0 script_plain)"
proof -
  have l: "TOKENNAME_MINLEN \<le> length ''GOLD''" "length ''GOLD'' \<le> TOKENNAME_MAXLEN"
    by (simp_all add: TOKENNAME_MINLEN_def TOKENNAME_MAXLEN_def)
  from DecodeTokenScript_BuildTokenScript [OF l] l show ?thesis by simp
qed

end
